theory Spec2Isabelle
  imports Complex_Main
begin

section \<open>The generated streaming filter (my\_filter.py)\<close>

text \<open>
  The artifact is a Python class \<open>MyFilter\<close> with four float attributes, the state
  registers of two biquad sections, and three methods. Python floats are modelled as
  \<^typ>\<open>real\<close>: the arithmetic below is exact, rounding is not modelled. The decimal
  literals of the source are the rational numbers they denote.

  An instance is an extensible record: the \<open>more\<close> part stands for whatever other
  attributes a caller may have attached to the object, so that what a method leaves
  untouched can be stated.
\<close>

record MyFilter =
  z1_0 :: real
  z2_0 :: real
  z1_1 :: real
  z2_1 :: real

text \<open>\<open>__init__\<close>: the freshly constructed instance.\<close>

definition init :: MyFilter where
  "init = \<lparr>z1_0 = 0, z2_0 = 0, z1_1 = 0, z2_1 = 0\<rparr>"

text \<open>
  \<open>process\<close>: one sample through both sections. The local variables \<open>output\<close> and
  \<open>x\<close> of the source are reassigned in place; here each assignment is a binding with
  the section's index. The result is the returned sample and the updated instance.
\<close>

definition process :: "'a MyFilter_scheme \<Rightarrow> real \<Rightarrow> real \<times> 'a MyFilter_scheme" where
  "process self input_sample =
     (let output = input_sample;
          x0 = output - (- 1.04859958 * z1_0 self) - (0.29614036 * z2_0 self);
          output0 = 0.00482434 * x0 + 0.00964869 * z1_0 self + 0.00482434 * z2_0 self;
          self = self\<lparr>z2_0 := z1_0 self\<rparr>;
          self = self\<lparr>z1_0 := x0\<rparr>;
          x1 = output0 - (- 1.32091343 * z1_1 self) - (0.63273879 * z2_1 self);
          output1 = 1.00000000 * x1 + 2.00000000 * z1_1 self + 1.00000000 * z2_1 self;
          self = self\<lparr>z2_1 := z1_1 self\<rparr>;
          self = self\<lparr>z1_1 := x1\<rparr>
      in (output1, self))"

text \<open>\<open>reset\<close>: the four assignments of the source, in order.\<close>

definition reset :: "'a MyFilter_scheme \<Rightarrow> 'a MyFilter_scheme" where
  "reset self = self\<lparr>z1_0 := 0, z2_0 := 0, z1_1 := 0, z2_1 := 0\<rparr>"

text \<open>
  Feeding a sequence of samples to one instance, one \<open>process\<close> call per sample:
  the outputs in order, and the instance afterwards.
\<close>

fun run :: "'a MyFilter_scheme \<Rightarrow> real list \<Rightarrow> real list \<times> 'a MyFilter_scheme" where
  "run self [] = ([], self)"
| "run self (u # us) =
     (let (y, self') = process self u;
          (ys, self'') = run self' us
      in (y # ys, self''))"

subsection \<open>The runtime contract in the specification's words\<close>

text \<open>
  The specification describes the artifact as a cascade of second-order sections, each
  with coefficients \<open>b0, b1, b2, a1, a2\<close> and two registers \<open>z1, z2\<close>. The
  definitions \<open>biquad_spec\<close> and \<open>cascade_spec\<close> follow the specification's
  sentence for \<open>process\<close>; they are what the source's \<open>process\<close> is compared with.
\<close>

record coeffs =
  b0 :: real
  b1 :: real
  b2 :: real
  a1 :: real
  a2 :: real

text \<open>
  One section: \<open>x = input - a1*z1 - a2*z2\<close>, \<open>output = b0*x + b1*z1 + b2*z2\<close>,
  then \<open>z2 <- z1; z1 <- x\<close>. The registers are the pair \<open>(z1, z2)\<close>.
\<close>

definition biquad_spec :: "coeffs \<Rightarrow> real \<times> real \<Rightarrow> real \<Rightarrow> real \<times> (real \<times> real)" where
  "biquad_spec c z input =
     (let x = input - a1 c * fst z - a2 c * snd z;
          output = b0 c * x + b1 c * fst z + b2 c * snd z
      in (output, (x, fst z)))"

text \<open>
  The sections in cascade order: each section's input is the previous section's output,
  and the last output is the result.
\<close>

fun cascade_spec :: "coeffs list \<Rightarrow> (real \<times> real) list \<Rightarrow> real \<Rightarrow> real \<times> (real \<times> real) list" where
  "cascade_spec (c # cs) (z # zs) input =
     (let (output, z') = biquad_spec c z input;
          (y, zs') = cascade_spec cs zs output
      in (y, z' # zs'))"
| "cascade_spec _ _ input = (input, [])"

text \<open>
  The coefficient literals of the two \<open># Biquad section\<close> blocks of the source, in
  the order \<open>b0, b1, b2\<close> of the \<open>output = ...\<close> line and \<open>a1, a2\<close> of the
  \<open>x = output - (a1 * z1) - (a2 * z2)\<close> line.
\<close>

definition section_0 :: coeffs where
  "section_0 = \<lparr>b0 = 0.00482434, b1 = 0.00964869, b2 = 0.00482434,
                 a1 = - 1.04859958, a2 = 0.29614036\<rparr>"

definition section_1 :: coeffs where
  "section_1 = \<lparr>b0 = 1.00000000, b1 = 2.00000000, b2 = 1.00000000,
                 a1 = - 1.32091343, a2 = 0.63273879\<rparr>"

definition sections :: "coeffs list" where
  "sections = [section_0, section_1]"

text \<open>The register pairs of an instance, one pair per section, in cascade order.\<close>

definition registers :: "'a MyFilter_scheme \<Rightarrow> (real \<times> real) list" where
  "registers self = [(z1_0 self, z2_0 self), (z1_1 self, z2_1 self)]"

text \<open>
  The reference cascade of the specification's reference case
  (\<open>family=lowpass, rate=500.0, order=4, freq=50.0\<close>), with the numbers as the
  specification prints them: the numerator of each section, and the two factors of its
  recursion \<open>x = input + f1*z1 - f2*z2\<close>.
\<close>

record reference_section =
  ref_b0 :: real
  ref_b1 :: real
  ref_b2 :: real
  ref_f1 :: real
  ref_f2 :: real

definition reference_cascade :: "reference_section list" where
  "reference_cascade =
     [\<lparr>ref_b0 = 0.00482434, ref_b1 = 0.00964869, ref_b2 = 0.00482434,
       ref_f1 = 1.04859958, ref_f2 = 0.29614036\<rparr>,
      \<lparr>ref_b0 = 1.0, ref_b1 = 2.0, ref_b2 = 1.0,
       ref_f1 = 1.32091343, ref_f2 = 0.63273879\<rparr>]"

text \<open>
  Whether a section of the code agrees with a reference section within a tolerance:
  every numerator coefficient, and the recursion factors \<open>f1 = - a1\<close>, \<open>f2 = a2\<close>.
\<close>

definition within_tolerance :: "real \<Rightarrow> coeffs \<Rightarrow> reference_section \<Rightarrow> bool" where
  "within_tolerance tol c r \<longleftrightarrow>
     \<bar>b0 c - ref_b0 r\<bar> \<le> tol \<and> \<bar>b1 c - ref_b1 r\<bar> \<le> tol \<and> \<bar>b2 c - ref_b2 r\<bar> \<le> tol \<and>
     \<bar>- a1 c - ref_f1 r\<bar> \<le> tol \<and> \<bar>a2 c - ref_f2 r\<bar> \<le> tol"

subsection \<open>Calls on one instance\<close>

text \<open>
  A method call and what it returns: \<open>process\<close> returns the filtered sample,
  \<open>reset\<close> returns \<open>None\<close>.
\<close>

datatype call = Process real | Reset

fun call_method :: "'a MyFilter_scheme \<Rightarrow> call \<Rightarrow> real option \<times> 'a MyFilter_scheme" where
  "call_method self (Process u) = (let (y, self') = process self u in (Some y, self'))"
| "call_method self Reset = (None, reset self)"

text \<open>One instance driven alone by a sequence of calls.\<close>

fun alone :: "'a MyFilter_scheme \<Rightarrow> call list \<Rightarrow> real option list \<times> 'a MyFilter_scheme" where
  "alone self [] = ([], self)"
| "alone self (c # cs) =
     (let (y, self') = call_method self c;
          (ys, self'') = alone self' cs
      in (y # ys, self''))"

subsection \<open>Several instances in one heap\<close>

text \<open>
  The usage notes of the source drive one instance per channel
  (\<open>filters = [MyFilter() for _ in range(3)]\<close>, then \<open>filters[0].process(raw1)\<close>,
  ...). To say what one instance's calls do to another, the methods are translated once
  more, now on the whole heap, with the receiver \<open>self\<close> a reference into it.

  The heap holds the attribute dictionary of every object, and the data attributes of the
  class, which all instances share. Reading \<open>self.name\<close> looks in the dictionary of the
  object first and in the class after it, and raises \<open>AttributeError\<close> when neither has
  the name; assigning \<open>self.name = v\<close> writes the dictionary of the object. Every
  attribute read and every assignment of the source is one \<open>getattr\<close> or \<open>setattr\<close>
  below, in the order the source evaluates them.
\<close>

datatype error = AttributeError string

type_synonym attrs = "string \<rightharpoonup> real"

record 'r heap =
  instance_dict :: "'r \<Rightarrow> attrs"
  class_dict :: attrs

definition getattr :: "'r heap \<Rightarrow> 'r \<Rightarrow> string \<Rightarrow> error + real" where
  "getattr h obj name =
     (case instance_dict h obj name of
        Some v \<Rightarrow> Inr v
      | None \<Rightarrow>
          (case class_dict h name of
             Some v \<Rightarrow> Inr v
           | None \<Rightarrow> Inl (AttributeError name)))"

definition setattr :: "'r heap \<Rightarrow> 'r \<Rightarrow> string \<Rightarrow> real \<Rightarrow> 'r heap" where
  "setattr h obj name v =
     h\<lparr>instance_dict := (instance_dict h)(obj := (instance_dict h obj)(name \<mapsto> v))\<rparr>"

text \<open>Sequencing: an exception raised by the first step ends the method.\<close>

definition and_then :: "error + 'a \<Rightarrow> ('a \<Rightarrow> error + 'b) \<Rightarrow> error + 'b" where
  "and_then m f = (case m of Inl e \<Rightarrow> Inl e | Inr v \<Rightarrow> f v)"

text \<open>\<open>__init__\<close> on the object \<open>self\<close>.\<close>

definition init_at :: "'r heap \<Rightarrow> 'r \<Rightarrow> 'r heap" where
  "init_at h self =
     (let h = setattr h self ''z1_0'' 0;
          h = setattr h self ''z2_0'' 0;
          h = setattr h self ''z1_1'' 0;
          h = setattr h self ''z2_1'' 0
      in h)"

text \<open>
  \<open>MyFilter()\<close>: a new object with an empty dictionary, on which \<open>__init__\<close> runs.
  The reference \<open>r\<close> is the identity the new object gets.
\<close>

definition new_instance :: "'r \<Rightarrow> 'r heap \<Rightarrow> 'r heap" where
  "new_instance r h = init_at (h\<lparr>instance_dict := (instance_dict h)(r := Map.empty)\<rparr>) r"

text \<open>\<open>process\<close> on the object \<open>self\<close>, statement by statement.\<close>

definition process_at :: "'r heap \<Rightarrow> 'r \<Rightarrow> real \<Rightarrow> error + (real \<times> 'r heap)" where
  "process_at h self input_sample =
     (let output = input_sample in
      and_then (getattr h self ''z1_0'') (\<lambda>z1.
      and_then (getattr h self ''z2_0'') (\<lambda>z2.
      let x = output - (- 1.04859958 * z1) - (0.29614036 * z2) in
      and_then (getattr h self ''z1_0'') (\<lambda>z1.
      and_then (getattr h self ''z2_0'') (\<lambda>z2.
      let output = 0.00482434 * x + 0.00964869 * z1 + 0.00482434 * z2 in
      and_then (getattr h self ''z1_0'') (\<lambda>z1.
      let h = setattr h self ''z2_0'' z1;
          h = setattr h self ''z1_0'' x in
      and_then (getattr h self ''z1_1'') (\<lambda>z1.
      and_then (getattr h self ''z2_1'') (\<lambda>z2.
      let x = output - (- 1.32091343 * z1) - (0.63273879 * z2) in
      and_then (getattr h self ''z1_1'') (\<lambda>z1.
      and_then (getattr h self ''z2_1'') (\<lambda>z2.
      let output = 1.00000000 * x + 2.00000000 * z1 + 1.00000000 * z2 in
      and_then (getattr h self ''z1_1'') (\<lambda>z1.
      let h = setattr h self ''z2_1'' z1;
          h = setattr h self ''z1_1'' x in
      Inr (output, h))))))))))))"

text \<open>\<open>reset\<close> on the object \<open>self\<close>.\<close>

definition reset_at :: "'r heap \<Rightarrow> 'r \<Rightarrow> 'r heap" where
  "reset_at h self =
     (let h = setattr h self ''z1_0'' 0;
          h = setattr h self ''z2_0'' 0;
          h = setattr h self ''z1_1'' 0;
          h = setattr h self ''z2_1'' 0
      in h)"

fun call_at :: "'r heap \<Rightarrow> 'r \<Rightarrow> call \<Rightarrow> error + (real option \<times> 'r heap)" where
  "call_at h self (Process u) = and_then (process_at h self u) (\<lambda>(y, h'). Inr (Some y, h'))"
| "call_at h self Reset = Inr (None, reset_at h self)"

text \<open>
  Calls on several instances, in the order the caller makes them: each entry names the
  receiver and the call. The trace records the receiver with each returned value. An
  exception ends the run.
\<close>

fun interleaved :: "'r heap \<Rightarrow> ('r \<times> call) list \<Rightarrow> error + (('r \<times> real option) list \<times> 'r heap)" where
  "interleaved h [] = Inr ([], h)"
| "interleaved h ((r, c) # rcs) =
     and_then (call_at h r c) (\<lambda>(y, h').
     and_then (interleaved h' rcs) (\<lambda>(ys, h'').
     Inr ((r, y) # ys, h'')))"

text \<open>The part of a schedule or of a trace that belongs to the instance \<open>r\<close>.\<close>

definition of_instance :: "'r \<Rightarrow> ('r \<times> 'b) list \<Rightarrow> 'b list" where
  "of_instance r xs = map snd (filter (\<lambda>p. fst p = r) xs)"

text \<open>
  The instance record an attribute dictionary stands for, when it holds the four
  registers.
\<close>

definition filter_of :: "attrs \<Rightarrow> MyFilter option" where
  "filter_of d =
     (case (d ''z1_0'', d ''z2_0'', d ''z1_1'', d ''z2_1'') of
        (Some p0, Some q0, Some p1, Some q1) \<Rightarrow>
          Some \<lparr>z1_0 = p0, z2_0 = q0, z1_1 = p1, z2_1 = q1\<rparr>
      | _ \<Rightarrow> None)"

text \<open>
  The heap before any instance is made. The class body of the source defines the three
  methods and no data attribute, so the class has none.
\<close>

definition empty_heap :: "'r heap" where
  "empty_heap = \<lparr>instance_dict = \<lambda>_. Map.empty, class_dict = Map.empty\<rparr>"

subsection \<open>Steady state\<close>

text \<open>
  The gain of a cascade at frequency zero: the product over the sections of
  \<open>(b0 + b1 + b2) / (1 + a1 + a2)\<close>.
\<close>

definition dc_gain :: "coeffs list \<Rightarrow> real" where
  "dc_gain cs = prod_list (map (\<lambda>c. (b0 c + b1 c + b2 c) / (1 + a1 c + a2 c)) cs)"

text \<open>
  A fresh instance fed the constant input \<open>1\<close>: the value returned by call number
  \<open>n\<close>, counting from \<open>0\<close>.
\<close>

definition unit_output :: "nat \<Rightarrow> real" where
  "unit_output n = last (fst (run init (replicate (Suc n) 1)))"

subsection \<open>The design this artifact was generated from\<close>

datatype family = Lowpass | Highpass | Bandpass | Bandstop

text \<open>
  The header comment of the source: a low-pass filter (\<open>Low-Pass Butterworth IIR
  digital filter\<close>) of order 4 (\<open>Filter is order 4\<close>).
\<close>

definition artifact_family :: family where
  "artifact_family = Lowpass"

definition artifact_order :: nat where
  "artifact_order = 4"

text \<open>
  Modelled from the spec: the number of sections the design kernel produces. The kernel
  (\<open>filter_gen.py\<close>, which the user interface runs as a separate program) is not among
  the sources; the specification gives \<open>ceil(order/2)\<close> sections for lowpass and
  highpass and \<open>order\<close> sections for bandpass and bandstop.
\<close>

definition section_count :: "family \<Rightarrow> nat \<Rightarrow> nat" where
  "section_count f order =
     (case f of
        Lowpass \<Rightarrow> nat \<lceil>real order / 2\<rceil>
      | Highpass \<Rightarrow> nat \<lceil>real order / 2\<rceil>
      | Bandpass \<Rightarrow> order
      | Bandstop \<Rightarrow> order)"

section \<open>The output language of the user interface (GUI.py)\<close>









section \<open>Properties of the generated filter\<close>

subsection \<open>Auxiliary facts\<close>

lemma process_unfolded:
  "process self u =
     (let x0 = u + 1.04859958 * z1_0 self - 0.29614036 * z2_0 self;
          out0 = 0.00482434 * x0 + 0.00964869 * z1_0 self + 0.00482434 * z2_0 self;
          x1 = out0 + 1.32091343 * z1_1 self - 0.63273879 * z2_1 self;
          out1 = x1 + 2 * z1_1 self + z2_1 self
      in (out1, self\<lparr>z1_0 := x0, z2_0 := z1_0 self, z1_1 := x1, z2_1 := z1_1 self\<rparr>))"
  by (simp add: process_def Let_def)

lemma cascade_spec_two:
  "cascade_spec [c0, c1] [r0, r1] u =
     (let (out0, r0') = biquad_spec c0 r0 u;
          (out1, r1') = biquad_spec c1 r1 out0
      in (out1, [r0', r1']))"
  by (simp add: split_beta)

lemma process_cascade_spec:
  "fst (process self u) = fst (cascade_spec sections (registers self) u)"
  "registers (snd (process self u)) = snd (cascade_spec sections (registers self) u)"
  by (simp_all add: process_def sections_def registers_def biquad_spec_def
      section_0_def section_1_def Let_def)

lemma process_more: "MyFilter.more (snd (process self u)) = MyFilter.more self"
  by (simp add: process_def Let_def)

lemma reset_more: "MyFilter.more (reset self) = MyFilter.more self"
  by (simp add: reset_def)

lemma call_method_more: "MyFilter.more (snd (call_method self c)) = MyFilter.more self"
  by (cases c) (simp_all add: split_beta process_more reset_more)

lemma alone_more: "MyFilter.more (snd (alone self cs)) = MyFilter.more self"
  by (induction cs arbitrary: self) (simp_all add: split_beta call_method_more)

text \<open>What \<open>process\<close> returns and the registers it leaves depend on the registers only.\<close>

lemma process_registers_only:
  assumes "registers s = registers t"
  shows "fst (process s u) = fst (process t u)"
    and "registers (snd (process s u)) = registers (snd (process t u))"
  using assms by (simp_all add: process_def registers_def Let_def)

lemma run_registers_only:
  "registers s = registers t \<Longrightarrow> fst (run s us) = fst (run t us)"
proof (induction us arbitrary: s t)
  case Nil
  then show ?case by simp
next
  case (Cons u us)
  have "fst (process s u) = fst (process t u)"
    using Cons.prems by (rule process_registers_only)
  moreover have "fst (run (snd (process s u)) us) = fst (run (snd (process t u)) us)"
    using Cons.prems by (intro Cons.IH process_registers_only)
  ultimately show ?case
    by (simp add: split_beta)
qed

lemma alone_Process:
  "fst (alone s (map Process us)) = map Some (fst (run s us))"
  "snd (alone s (map Process us)) = snd (run s us)"
  by (induction us arbitrary: s) (simp_all add: split_beta)

subsection \<open>The coefficients and the recursion\<close>

text \<open>
  Claim C1. The artifact reproduces the reference cascade of the specification for
  \<open>family=lowpass, rate=500.0, order=4, freq=50.0\<close>. Its first section computes
  \<open>x = input + 1.04859958*z1 - 0.29614036*z2\<close> and has the numerator
  \<open>0.00482434, 0.00964869, 0.00482434\<close>; its second section computes
  \<open>x = input + 1.32091343*z1 - 0.63273879*z2\<close>, its input being the first section's
  output, and has the numerator \<open>1.0, 2.0, 1.0\<close>. Every coefficient of the code is
  within \<open>1e-6\<close> of the reference value.
\<close>

theorem reference_reproduction:
  "process self u =
     (let x0 = u + 1.04859958 * z1_0 self - 0.29614036 * z2_0 self;
          out0 = 0.00482434 * x0 + 0.00964869 * z1_0 self + 0.00482434 * z2_0 self;
          x1 = out0 + 1.32091343 * z1_1 self - 0.63273879 * z2_1 self;
          out1 = 1.0 * x1 + 2.0 * z1_1 self + 1.0 * z2_1 self
      in (out1, self\<lparr>z1_0 := x0, z2_0 := z1_0 self, z1_1 := x1, z2_1 := z1_1 self\<rparr>))
   \<and> list_all2 (within_tolerance (1 / 10 ^ 6)) sections reference_cascade"
proof
  show "list_all2 (within_tolerance (1 / 10 ^ 6)) sections reference_cascade"
    by (simp add: within_tolerance_def sections_def reference_cascade_def
        section_0_def section_1_def)
qed (simp add: process_unfolded)

text \<open>
  Claim C2. For every input sample and every content of the registers, one call to
  \<open>process\<close> is the cascade of the specification over the two sections: section 0 is
  applied to the input and its registers by the direct-form-II step
  (\<open>x = input - a1*z1 - a2*z2\<close>, \<open>output = b0*x + b1*z1 + b2*z2\<close>,
  \<open>z2 <- z1; z1 <- x\<close>), section 1 is applied by the same step to the output of
  section 0 and its own registers, and the output of section 1 is returned.
\<close>

theorem process_is_cascade:
  "fst (process self u) = fst (cascade_spec sections (registers self) u) \<and>
   registers (snd (process self u)) = snd (cascade_spec sections (registers self) u) \<and>
   cascade_spec sections (registers self) u =
     (let (out0, r0) = biquad_spec section_0 (z1_0 self, z2_0 self) u;
          (out1, r1) = biquad_spec section_1 (z1_1 self, z2_1 self) out0
      in (out1, [r0, r1]))"
  by (simp add: process_cascade_spec) (simp add: sections_def registers_def split_beta)

subsection \<open>Reset\<close>

text \<open>
  Claim C3. \<open>reset\<close> sets the four registers to zero and changes nothing else, in any
  state of the instance; and for every input sequence, the outputs of an instance that
  was reset are those of a freshly constructed instance fed the same sequence. (The
  coefficients are not part of the state, so the same \<open>process\<close> runs in both.)
\<close>

theorem reset_then_replay:
  "z1_0 (reset self) = 0 \<and> z2_0 (reset self) = 0 \<and>
   z1_1 (reset self) = 0 \<and> z2_1 (reset self) = 0 \<and>
   MyFilter.more (reset self) = MyFilter.more self \<and>
   fst (run (reset self) us) = fst (run init us)"
proof -
  have "registers (reset self) = registers init"
    by (simp add: registers_def reset_def init_def)
  then have "fst (run (reset self) us) = fst (run init us)"
    by (rule run_registers_only)
  then show ?thesis
    by (simp add: reset_def)
qed

subsection \<open>Frame conditions\<close>

text \<open>
  Claim C10. A call to \<open>process\<close> assigns the four attributes \<open>z1_0\<close>, \<open>z2_0\<close>,
  \<open>z1_1\<close>, \<open>z2_1\<close> of the instance and nothing else: whatever else the object
  carries is unchanged, and the constructor creates no other attribute. The same holds
  for \<open>reset\<close> and for any sequence of calls. The coefficients are not state: after
  any sequence of calls, \<open>process\<close> still is the cascade with the coefficients of
  \<open>sections\<close>.
\<close>

theorem process_frame:
  "snd (process self u) =
     self\<lparr>z1_0 := u + 1.04859958 * z1_0 self - 0.29614036 * z2_0 self,
          z2_0 := z1_0 self,
          z1_1 := z1_1 (snd (process self u)),
          z2_1 := z1_1 self\<rparr> \<and>
   MyFilter.more (snd (process self u)) = MyFilter.more self \<and>
   MyFilter.more (reset self) = MyFilter.more self \<and>
   MyFilter.more init = () \<and>
   MyFilter.more (snd (alone self cs)) = MyFilter.more self \<and>
   fst (process (snd (alone self cs)) u) =
     fst (cascade_spec sections (registers (snd (alone self cs))) u)"
proof -
  have "snd (process self u) =
     self\<lparr>z1_0 := u + 1.04859958 * z1_0 self - 0.29614036 * z2_0 self,
          z2_0 := z1_0 self,
          z1_1 := z1_1 (snd (process self u)),
          z2_1 := z1_1 self\<rparr>"
    by (simp add: process_unfolded Let_def)
  then show ?thesis
    by (simp add: process_more reset_more alone_more process_cascade_spec)
qed

subsection \<open>The heap and the instance record\<close>

text \<open>
  On an object whose dictionary holds the four registers, the methods on the heap do what
  the methods on the record do: no \<open>AttributeError\<close>, the same returned value, the same
  new registers. They leave the dictionary of every other object and the attributes of
  the class as they were.
\<close>

lemma filter_of_SomeD:
  assumes "filter_of d = Some s"
  shows "d ''z1_0'' = Some (z1_0 s)" "d ''z2_0'' = Some (z2_0 s)"
        "d ''z1_1'' = Some (z1_1 s)" "d ''z2_1'' = Some (z2_1 s)"
  using assms by (auto simp: filter_of_def split: option.splits)

lemma process_at_refines:
  assumes "filter_of (instance_dict h self) = Some s"
  shows "\<exists>h'. process_at h self u = Inr (fst (process s u), h') \<and>
           filter_of (instance_dict h' self) = Some (snd (process s u)) \<and>
           (\<forall>r. r \<noteq> self \<longrightarrow> instance_dict h' r = instance_dict h r) \<and>
           class_dict h' = class_dict h"
  using filter_of_SomeD [OF assms]
  by (simp add: process_at_def getattr_def setattr_def and_then_def Let_def
      process_unfolded filter_of_def)

lemma reset_at_refines:
  "filter_of (instance_dict (reset_at h self) self) = Some (reset s) \<and>
   (\<forall>r. r \<noteq> self \<longrightarrow> instance_dict (reset_at h self) r = instance_dict h r) \<and>
   class_dict (reset_at h self) = class_dict h"
  by (simp add: reset_at_def setattr_def Let_def filter_of_def reset_def)

lemma new_instance_init:
  "filter_of (instance_dict (new_instance r h) r) = Some init \<and>
   (\<forall>r'. r' \<noteq> r \<longrightarrow> instance_dict (new_instance r h) r' = instance_dict h r') \<and>
   class_dict (new_instance r h) = class_dict h"
  by (simp add: new_instance_def init_at_def setattr_def Let_def filter_of_def init_def)

lemma call_at_refines:
  assumes "filter_of (instance_dict h self) = Some s"
  shows "\<exists>h'. call_at h self c = Inr (fst (call_method s c), h') \<and>
           filter_of (instance_dict h' self) = Some (snd (call_method s c)) \<and>
           (\<forall>r. r \<noteq> self \<longrightarrow> instance_dict h' r = instance_dict h r) \<and>
           class_dict h' = class_dict h"
proof (cases c)
  case (Process u)
  from process_at_refines [OF assms, of u] show ?thesis
    by (auto simp: Process and_then_def split_beta)
next
  case Reset
  from reset_at_refines [of h self s] show ?thesis
    by (simp add: Reset)
qed

text \<open>
  The registers must be the object's own. On an object whose dictionary is empty
  (\<open>__init__\<close> has not run), \<open>process\<close> raises when the class has no such attribute,
  and computes from the attributes of the class, which every instance shares, when it
  has them.
\<close>

lemma process_at_without_registers:
  "process_at empty_heap r u = Inl (AttributeError ''z1_0'')"
  by (simp add: process_at_def empty_heap_def getattr_def and_then_def)

lemma process_at_reads_class:
  "\<exists>h'. process_at
          \<lparr>instance_dict = \<lambda>_. Map.empty,
           class_dict = [''z1_0'' \<mapsto> 0, ''z2_0'' \<mapsto> 0, ''z1_1'' \<mapsto> c, ''z2_1'' \<mapsto> 0]\<rparr> r 0
        = Inr (1.32091343 * c + 2 * c, h')"
  by (simp add: process_at_def getattr_def setattr_def and_then_def Let_def algebra_simps)

text \<open>
  In an interleaved schedule whose receivers all hold their registers, no call raises, and
  the values returned to an instance and the registers it ends with are those of the
  instance driven alone by its own calls.
\<close>

lemma interleaved_alone:
  assumes "\<And>r. r \<in> fst ` set rcs \<Longrightarrow> filter_of (instance_dict h r) \<noteq> None"
  shows "\<exists>tr h'. interleaved h rcs = Inr (tr, h') \<and>
           class_dict h' = class_dict h \<and>
           (\<forall>r. r \<notin> fst ` set rcs \<longrightarrow> instance_dict h' r = instance_dict h r) \<and>
           (\<forall>r s. filter_of (instance_dict h r) = Some s \<longrightarrow>
              of_instance r tr = fst (alone s (of_instance r rcs)) \<and>
              filter_of (instance_dict h' r) = Some (snd (alone s (of_instance r rcs))))"
  using assms
proof (induction rcs arbitrary: h)
  case Nil
  then show ?case by (simp add: of_instance_def)
next
  case (Cons rc rcs)
  obtain a c where rc: "rc = (a, c)" by (cases rc)
  from Cons.prems [of a] obtain sa where sa: "filter_of (instance_dict h a) = Some sa"
    by (auto simp: rc)
  from call_at_refines [OF sa, of c] obtain h1 where
    call: "call_at h a c = Inr (fst (call_method sa c), h1)"
    and a1: "filter_of (instance_dict h1 a) = Some (snd (call_method sa c))"
    and others: "\<And>r. r \<noteq> a \<Longrightarrow> instance_dict h1 r = instance_dict h r"
    and cls1: "class_dict h1 = class_dict h"
    by blast
  have "filter_of (instance_dict h1 r) \<noteq> None" if "r \<in> fst ` set rcs" for r
  proof (cases "r = a")
    case True
    with a1 show ?thesis by simp
  next
    case False
    with others [of r] Cons.prems [of r] that show ?thesis by (simp add: rc)
  qed
  from Cons.IH [OF this] obtain tr h2 where
    run: "interleaved h1 rcs = Inr (tr, h2)"
    and cls2: "class_dict h2 = class_dict h1"
    and untouched: "\<And>r. r \<notin> fst ` set rcs \<Longrightarrow> instance_dict h2 r = instance_dict h1 r"
    and each: "\<And>r s. filter_of (instance_dict h1 r) = Some s \<Longrightarrow>
        of_instance r tr = fst (alone s (of_instance r rcs)) \<and>
        filter_of (instance_dict h2 r) = Some (snd (alone s (of_instance r rcs)))"
    by blast
  have whole: "interleaved h (rc # rcs) = Inr ((a, fst (call_method sa c)) # tr, h2)"
    by (simp add: rc call run and_then_def)
  have "of_instance r ((a, fst (call_method sa c)) # tr) = fst (alone s (of_instance r (rc # rcs))) \<and>
        filter_of (instance_dict h2 r) = Some (snd (alone s (of_instance r (rc # rcs))))"
    if s: "filter_of (instance_dict h r) = Some s" for r s
  proof (cases "r = a")
    case True
    with s sa have "s = sa" by simp
    with each [OF a1] True show ?thesis
      by (simp add: rc of_instance_def split_beta)
  next
    case False
    with others [of r] s have "filter_of (instance_dict h1 r) = Some s" by simp
    from each [OF this] False show ?thesis
      by (simp add: rc of_instance_def)
  qed
  moreover have "instance_dict h2 r = instance_dict h r" if "r \<notin> fst ` set (rc # rcs)" for r
    using that untouched [of r] others [of r] by (simp add: rc)
  ultimately show ?case
    using whole cls1 cls2 by simp
qed

subsection \<open>Determinism and independence of instances\<close>

text \<open>
  Claim C4. \<open>process\<close> is deterministic: two instances constructed independently
  (two \<open>MyFilter()\<close> objects of distinct identity, in any heap) and fed the same input
  sequence return the same output sequence, however the calls on the two are interleaved
  with each other and with calls on other constructed instances. No call raises, and the
  sequence is that of \<open>run\<close> on the constructor's state.
\<close>

theorem determinism:
  assumes "r1 \<noteq> r2"
    and "list_all (\<lambda>r. filter_of (instance_dict (new_instance r2 (new_instance r1 h)) r) \<noteq> None)
           (map fst rcs)"
    and "of_instance r1 rcs = map Process us"
    and "of_instance r2 rcs = map Process us"
  shows "\<exists>tr h'. interleaved (new_instance r2 (new_instance r1 h)) rcs = Inr (tr, h') \<and>
           of_instance r1 tr = map Some (fst (run init us)) \<and>
           of_instance r2 tr = map Some (fst (run init us))"
proof -
  let ?h = "new_instance r2 (new_instance r1 h)"
  have i2: "filter_of (instance_dict ?h r2) = Some init"
    using new_instance_init [of r2 "new_instance r1 h"] by simp
  have i1: "filter_of (instance_dict ?h r1) = Some init"
    using new_instance_init [of r2 "new_instance r1 h"] new_instance_init [of r1 h] assms(1)
    by simp
  from assms(2) have "\<And>r. r \<in> fst ` set rcs \<Longrightarrow> filter_of (instance_dict ?h r) \<noteq> None"
    by (auto simp: list_all_iff)
  from interleaved_alone [OF this] obtain tr h' where
    run: "interleaved ?h rcs = Inr (tr, h')"
    and each: "\<And>r s. filter_of (instance_dict ?h r) = Some s \<Longrightarrow>
        of_instance r tr = fst (alone s (of_instance r rcs))"
    by blast
  from each [OF i1] each [OF i2] run show ?thesis
    by (simp add: assms(3,4) alone_Process)
qed

text \<open>Two instances in the empty heap, two samples each, the calls interleaved.\<close>

theorem determinism_witness:
  "(0::nat) \<noteq> 1 \<and>
   list_all
     (\<lambda>r. filter_of (instance_dict (new_instance (1::nat) (new_instance 0 empty_heap)) r) \<noteq> None)
     (map fst [(0::nat, Process 1), (1, Process 1), (1, Process 0), (0, Process 0)]) \<and>
   of_instance (0::nat) [(0, Process 1), (1, Process 1), (1, Process 0), (0, Process 0)]
     = map Process [1, 0] \<and>
   of_instance (1::nat) [(0, Process 1), (1, Process 1), (1, Process 0), (0, Process 0)]
     = map Process [1, 0] \<and>
   (\<exists>tr h'. interleaved (new_instance (1::nat) (new_instance 0 empty_heap))
                [(0::nat, Process 1), (1, Process 1), (1, Process 0), (0, Process 0)] = Inr (tr, h') \<and>
      of_instance 0 tr = map Some (fst (run init [1, 0])) \<and>
      of_instance 1 tr = map Some (fst (run init [1, 0])))"
proof -
  let ?h = "new_instance (1::nat) (new_instance 0 empty_heap)"
  let ?rcs = "[(0::nat, Process 1), (1, Process 1), (1, Process 0), (0, Process 0)]"
  have ne: "(0::nat) \<noteq> 1" by simp
  have h1: "filter_of (instance_dict ?h 1) = Some init"
    using new_instance_init [of "1::nat" "new_instance 0 empty_heap"] by simp
  have h0: "filter_of (instance_dict ?h 0) = Some init"
    using new_instance_init [of "1::nat" "new_instance 0 empty_heap"]
      new_instance_init [of "0::nat" empty_heap] by simp
  have all: "list_all (\<lambda>r. filter_of (instance_dict ?h r) \<noteq> None) (map fst ?rcs)"
    using h0 h1 by simp
  have p0: "of_instance 0 ?rcs = map Process [1, 0]" by (simp add: of_instance_def)
  have p1: "of_instance 1 ?rcs = map Process [1, 0]" by (simp add: of_instance_def)
  show ?thesis
    by (rule conjI [OF ne conjI [OF all conjI [OF p0 conjI [OF p1 determinism [OF ne all p0 p1]]]]])
qed

text \<open>
  Claim C5. Distinct instances own disjoint state. Under any interleaving of
  \<open>process\<close> and \<open>reset\<close> calls on instances that hold their registers, the values
  returned to an instance \<open>r\<close> and the registers it ends with are those of \<open>r\<close>
  driven alone by its own calls, whatever the other objects and the class hold: a call on
  another instance neither reads nor changes them. The dictionary of an object that
  receives no call and the attributes of the class are unchanged.
\<close>

theorem instances_independent:
  assumes "list_all (\<lambda>r'. filter_of (instance_dict h r') \<noteq> None) (map fst rcs)"
    and "filter_of (instance_dict h r) = Some s"
  shows "\<exists>tr h'. interleaved h rcs = Inr (tr, h') \<and>
           of_instance r tr = fst (alone s (of_instance r rcs)) \<and>
           filter_of (instance_dict h' r) = Some (snd (alone s (of_instance r rcs))) \<and>
           (\<forall>r'. r' \<notin> fst ` set rcs \<longrightarrow> instance_dict h' r' = instance_dict h r') \<and>
           class_dict h' = class_dict h"
proof -
  from assms(1) have "\<And>r. r \<in> fst ` set rcs \<Longrightarrow> filter_of (instance_dict h r) \<noteq> None"
    by (auto simp: list_all_iff)
  from interleaved_alone [OF this] assms(2) show ?thesis
    by blast
qed

text \<open>Two instances in the empty heap; a \<open>reset\<close> of one between two samples of the other.\<close>

theorem instances_independent_witness:
  "list_all
     (\<lambda>r'. filter_of (instance_dict (new_instance (1::nat) (new_instance 0 empty_heap)) r') \<noteq> None)
     (map fst [(0::nat, Process 1), (1, Reset), (0, Process 0)]) \<and>
   filter_of (instance_dict (new_instance (1::nat) (new_instance 0 empty_heap)) 0) = Some init \<and>
   (\<exists>tr h'. interleaved (new_instance (1::nat) (new_instance 0 empty_heap))
                [(0::nat, Process 1), (1, Reset), (0, Process 0)] = Inr (tr, h') \<and>
      of_instance 0 tr =
        fst (alone init (of_instance 0 [(0::nat, Process 1), (1, Reset), (0, Process 0)])) \<and>
      filter_of (instance_dict h' 0) =
        Some (snd (alone init (of_instance 0 [(0::nat, Process 1), (1, Reset), (0, Process 0)]))) \<and>
      (\<forall>r'. r' \<notin> fst ` set [(0::nat, Process 1), (1, Reset), (0, Process 0)] \<longrightarrow>
         instance_dict h' r' =
         instance_dict (new_instance (1::nat) (new_instance 0 empty_heap)) r') \<and>
      class_dict h' = class_dict (new_instance (1::nat) (new_instance 0 empty_heap)))"
proof -
  let ?h = "new_instance (1::nat) (new_instance 0 empty_heap)"
  let ?rcs = "[(0::nat, Process 1), (1, Reset), (0, Process 0)]"
  have h1: "filter_of (instance_dict ?h 1) = Some init"
    using new_instance_init [of "1::nat" "new_instance 0 empty_heap"] by simp
  have h0: "filter_of (instance_dict ?h 0) = Some init"
    using new_instance_init [of "1::nat" "new_instance 0 empty_heap"]
      new_instance_init [of "0::nat" empty_heap] by simp
  have all: "list_all (\<lambda>r'. filter_of (instance_dict ?h r') \<noteq> None) (map fst ?rcs)"
    using h0 h1 by simp
  show ?thesis
    by (rule conjI [OF all conjI [OF h0 instances_independent [OF all h0]]])
qed

subsection \<open>Section count\<close>

text \<open>
  Claim C8. For lowpass and highpass designs the cascade has \<open>ceil(order/2)\<close>
  second-order sections (the count of the design kernel, as the specification gives it;
  an odd order \<open>2k+1\<close> gives \<open>k+1\<close>). The artifact, a lowpass of order 4, has
  exactly that many, namely 2: \<open>process\<close> is section 0 on the registers
  \<open>z1_0, z2_0\<close> followed by section 1 on the registers \<open>z1_1, z2_1\<close>, each section
  reading and writing its own pair, and \<open>process\<close> is not a single section on either
  pair.
\<close>

theorem artifact_section_count:
  "section_count Lowpass order = nat \<lceil>real order / 2\<rceil> \<and>
   section_count Highpass order = nat \<lceil>real order / 2\<rceil> \<and>
   section_count Lowpass (2 * k + 1) = k + 1 \<and>
   section_count artifact_family artifact_order = 2 \<and>
   length sections = section_count artifact_family artifact_order \<and>
   length (registers self) = length sections \<and>
   process self u =
     (let (out0, (p0, q0)) = biquad_spec (sections ! 0) (z1_0 self, z2_0 self) u;
          (out1, (p1, q1)) = biquad_spec (sections ! 1) (z1_1 self, z2_1 self) out0
      in (out1, self\<lparr>z1_0 := p0, z2_0 := q0, z1_1 := p1, z2_1 := q1\<rparr>)) \<and>
   \<not> (\<exists>c. \<forall>(s :: MyFilter) v. fst (process s v) = fst (biquad_spec c (z1_0 s, z2_0 s) v)) \<and>
   \<not> (\<exists>c. \<forall>(s :: MyFilter) v. fst (process s v) = fst (biquad_spec c (z1_1 s, z2_1 s) v))"
proof (intro conjI)
  show "section_count Lowpass (2 * k + 1) = k + 1"
  proof -
    have "\<lceil>real (2 * k + 1) / 2\<rceil> = int k + 1"
      by (rule ceiling_unique) simp_all
    then show ?thesis
      by (simp add: section_count_def)
  qed
  show "process self u =
     (let (out0, (p0, q0)) = biquad_spec (sections ! 0) (z1_0 self, z2_0 self) u;
          (out1, (p1, q1)) = biquad_spec (sections ! 1) (z1_1 self, z2_1 self) out0
      in (out1, self\<lparr>z1_0 := p0, z2_0 := q0, z1_1 := p1, z2_1 := q1\<rparr>))"
    by (simp add: process_unfolded sections_def section_0_def section_1_def biquad_spec_def Let_def)
  show "\<not> (\<exists>c. \<forall>(s :: MyFilter) v. fst (process s v) = fst (biquad_spec c (z1_0 s, z2_0 s) v))"
  proof
    assume "\<exists>c. \<forall>(s :: MyFilter) v. fst (process s v) = fst (biquad_spec c (z1_0 s, z2_0 s) v)"
    then obtain c where "fst (process s v) = fst (biquad_spec c (z1_0 s, z2_0 s) v)" for s :: MyFilter and v
      by blast
    from this [of "\<lparr>z1_0 = 0, z2_0 = 0, z1_1 = 1, z2_1 = 0\<rparr>" 0] show False
      by (simp add: process_unfolded biquad_spec_def Let_def)
  qed
  show "\<not> (\<exists>c. \<forall>(s :: MyFilter) v. fst (process s v) = fst (biquad_spec c (z1_1 s, z2_1 s) v))"
  proof
    assume "\<exists>c. \<forall>(s :: MyFilter) v. fst (process s v) = fst (biquad_spec c (z1_1 s, z2_1 s) v)"
    then obtain c where "fst (process s v) = fst (biquad_spec c (z1_1 s, z2_1 s) v)" for s :: MyFilter and v
      by blast
    from this [of "\<lparr>z1_0 = 1, z2_0 = 0, z1_1 = 0, z2_1 = 0\<rparr>" 0] show False
      by (simp add: process_unfolded biquad_spec_def Let_def)
  qed
qed (simp_all add: section_count_def sections_def registers_def artifact_family_def artifact_order_def)

subsection \<open>Stability\<close>

text \<open>
  A real quadratic \<open>z\<^sup>2 + p*z + q\<close> with negative discriminant and \<open>q < 1\<close> has
  its roots strictly inside the unit circle: they are a conjugate pair of squared
  modulus \<open>q\<close>.
\<close>

lemma quadratic_root_inside:
  fixes p q :: real and z :: complex
  assumes disc: "p\<^sup>2 < 4 * q" and q1: "q < 1"
    and root: "z\<^sup>2 + of_real p * z + of_real q = 0"
  shows "cmod z < 1"
proof -
  define x y where "x = Re z" and "y = Im z"
  have re: "x * x - y * y + p * x + q = 0"
    using arg_cong [OF root, of Re] by (simp add: power2_eq_square x_def y_def)
  have im: "(2 * x + p) * y = 0"
    using arg_cong [OF root, of Im] by (simp add: power2_eq_square x_def y_def algebra_simps)
  have "y \<noteq> 0"
  proof
    assume "y = 0"
    with re have "x * x + p * x + q = 0" by simp
    then have "(2 * x + p)\<^sup>2 = p\<^sup>2 - 4 * q"
      by (simp add: power2_eq_square algebra_simps)
    with disc have "(2 * x + p)\<^sup>2 < 0" by simp
    then show False by (simp add: not_less [symmetric])
  qed
  with im have "2 * x + p = 0" by simp
  then have x: "x = - p / 2" by simp
  with re have "x * x + y * y = q"
    by (simp add: algebra_simps)
  then have "(cmod z)\<^sup>2 = q"
    unfolding cmod_power2 by (simp add: x_def y_def power2_eq_square)
  with q1 have "(cmod z)\<^sup>2 < 1\<^sup>2" by simp
  then show ?thesis
    by (rule power2_less_imp_less) simp
qed

text \<open>
  Claim C6. Every section of the cascade is stable: with \<open>a1\<close>, \<open>a2\<close> the exact
  values of the literals (\<open>a1 = -1.04859958\<close>, \<open>a2 = 0.29614036\<close> for section 0;
  \<open>a1 = -1.32091343\<close>, \<open>a2 = 0.63273879\<close> for section 1), every complex root of
  \<open>z\<^sup>2 + a1*z + a2\<close> has modulus strictly less than 1.
\<close>

theorem sections_stable:
  assumes "c \<in> set sections"
    and "z\<^sup>2 + complex_of_real (a1 c) * z + complex_of_real (a2 c) = 0"
  shows "cmod z < 1"
proof -
  from assms(1) have "(a1 c)\<^sup>2 < 4 * a2 c \<and> a2 c < 1"
    by (auto simp: sections_def section_0_def section_1_def power2_eq_square)
  with assms(2) show ?thesis
    by (blast intro: quadratic_root_inside)
qed

text \<open>The witness is a pole of section 0, \<open>0.52429979 + i * sqrt (a2 - a1\<^sup>2 / 4)\<close>.\<close>

theorem sections_stable_witness: "section_0 \<in> set sections \<and>
   (Complex (52429979 / 100000000) (sqrt (0.29614036 - (52429979 / 100000000)\<^sup>2)))\<^sup>2
     + complex_of_real (a1 section_0) * Complex (52429979 / 100000000) (sqrt (0.29614036 - (52429979 / 100000000)\<^sup>2))
     + complex_of_real (a2 section_0) = 0 \<and>
   cmod (Complex (52429979 / 100000000) (sqrt (0.29614036 - (52429979 / 100000000)\<^sup>2))) < 1"
proof -
  let ?z = "Complex (52429979 / 100000000) (sqrt (0.29614036 - (52429979 / 100000000)\<^sup>2))"
  have m: "section_0 \<in> set sections" by (simp add: sections_def)
  have r: "?z\<^sup>2 + complex_of_real (a1 section_0) * ?z + complex_of_real (a2 section_0) = 0"
    by (simp add: complex_eq_iff section_0_def power2_eq_square)
  show ?thesis
    by (rule conjI [OF m conjI [OF r sections_stable [OF m r]]])
qed

subsection \<open>Gain at frequency zero\<close>

text \<open>
  A sequence driven through a contraction by a vanishing input vanishes:
  if \<open>w (n + 1) = l * w n + v n\<close> with \<open>|l| < 1\<close> and \<open>v\<close> tends to \<open>0\<close>,
  then \<open>w\<close> tends to \<open>0\<close>.
\<close>

lemma lin_rec_null:
  fixes w v :: "nat \<Rightarrow> complex" and l :: complex
  assumes l: "cmod l < 1"
    and rec: "\<And>n. w (Suc n) = l * w n + v n"
    and v: "v \<longlonglongrightarrow> 0"
  shows "w \<longlonglongrightarrow> 0"
proof (rule LIMSEQ_I)
  fix e :: real
  assume e: "0 < e"
  define r where "r = cmod l"
  have r0: "0 \<le> r" and r1: "r < 1"
    using l by (simp_all add: r_def)
  define d where "d = e * (1 - r) / 2"
  have d: "0 < d"
    using e r1 by (simp add: d_def)
  from LIMSEQ_D [OF v d] obtain N where N: "\<And>n. N \<le> n \<Longrightarrow> cmod (v n) < d"
    by auto
  have bound: "cmod (w (N + k)) \<le> r ^ k * cmod (w N) + e / 2" for k
  proof (induction k)
    case 0
    from e show ?case by simp
  next
    case (Suc k)
    have "cmod (w (N + Suc k)) = cmod (l * w (N + k) + v (N + k))"
      by (simp add: rec)
    also have "\<dots> \<le> cmod (l * w (N + k)) + cmod (v (N + k))"
      by (rule norm_triangle_ineq)
    also have "\<dots> \<le> r * cmod (w (N + k)) + d"
      using N [of "N + k"] by (simp add: norm_mult r_def)
    also have "\<dots> \<le> r * (r ^ k * cmod (w N) + e / 2) + d"
      using Suc.IH r0 by (simp add: mult_left_mono)
    also have "\<dots> = r ^ Suc k * cmod (w N) + e / 2"
      by (simp add: d_def field_simps)
    finally show ?case .
  qed
  have "(\<lambda>k. r ^ k * cmod (w N)) \<longlonglongrightarrow> 0"
    using LIMSEQ_realpow_zero [OF r0 r1] by (rule tendsto_mult_left_zero)
  moreover have "0 < e / 2" using e by simp
  ultimately obtain K where K: "\<And>k. K \<le> k \<Longrightarrow> norm (r ^ k * cmod (w N) - 0) < e / 2"
    using LIMSEQ_D by blast
  show "\<exists>no. \<forall>n\<ge>no. norm (w n - 0) < e"
  proof (intro exI allI impI)
    fix n
    assume n: "N + K \<le> n"
    then have k: "K \<le> n - N" by simp
    from K [OF k] r0 have "r ^ (n - N) * cmod (w N) < e / 2"
      by simp
    with bound [of "n - N"] n show "norm (w n - 0) < e"
      by simp
  qed
qed

text \<open>
  The register sequence of one stable section with complex poles, driven by a convergent
  input: \<open>x (n + 2) = u n - p * x (n + 1) - q * x n\<close>. With \<open>l\<close> a pole of the
  section, \<open>w n = e (n + 1) - cnj l * e n\<close> for the error \<open>e\<close> satisfies the first-order
  recursion above.
\<close>

lemma biquad_converges:
  fixes x u :: "nat \<Rightarrow> real" and p q U :: real
  assumes disc: "p\<^sup>2 < 4 * q" and q1: "q < 1"
    and rec: "\<And>n. x (Suc (Suc n)) = u n - p * x (Suc n) - q * x n"
    and u: "u \<longlonglongrightarrow> U"
  shows "x \<longlonglongrightarrow> U / (1 + p + q)"
proof -
  have q0: "0 < q"
  proof -
    have "0 \<le> p\<^sup>2" by simp
    then have "0 < 4 * q" using disc by (rule le_less_trans)
    then show ?thesis by simp
  qed
  have "(1 + q)\<^sup>2 - 4 * q = (1 - q)\<^sup>2"
    by (simp add: power2_eq_square algebra_simps)
  then have "4 * q \<le> (1 + q)\<^sup>2"
    by (metis diff_ge_0_iff_ge zero_le_power2)
  with disc have "\<bar>p\<bar>\<^sup>2 < (1 + q)\<^sup>2" by simp
  then have "\<bar>p\<bar> < 1 + q"
    by (rule power2_less_imp_less) (use q0 in simp)
  then have D: "0 < 1 + p + q" by simp
  define X where "X = U / (1 + p + q)"
  have XU: "X * (1 + p + q) = U"
    using D by (simp add: X_def)
  define e where "e n = x n - X" for n
  have erec: "e (Suc (Suc n)) = (u n - U) - p * e (Suc n) - q * e n" for n
    unfolding e_def rec XU [symmetric] by (simp add: algebra_simps)
  define s where "s = sqrt (q - p\<^sup>2 / 4)"
  have s2: "s * s = q - p\<^sup>2 / 4"
    using disc by (simp add: s_def)
  have s0: "0 < s"
    using disc by (simp add: s_def)
  define l where "l = Complex (- p / 2) s"
  define w where "w n = Complex (e (Suc n) + p / 2 * e n) (s * e n)" for n
  define v where "v n = complex_of_real (u n - U)" for n
  have "(cmod l)\<^sup>2 = q"
    unfolding cmod_power2 using s2 by (simp add: l_def power2_eq_square)
  with q1 have "(cmod l)\<^sup>2 < 1\<^sup>2" by simp
  then have l1: "cmod l < 1"
    by (rule power2_less_imp_less) simp
  have wrec: "w (Suc n) = l * w n + v n" for n
  proof -
    have "s * (s * e n) = (q - p\<^sup>2 / 4) * e n"
      using s2 by (simp add: mult.assoc [symmetric])
    then show ?thesis
      by (simp add: complex_eq_iff w_def l_def v_def erec power2_eq_square algebra_simps)
  qed
  have "(\<lambda>n. u n - U) \<longlonglongrightarrow> 0"
    using u by (simp add: LIM_zero_iff)
  then have "v \<longlonglongrightarrow> 0"
    unfolding v_def using tendsto_of_real_iff [of "\<lambda>n. u n - U" 0 sequentially, where ?'a = complex] by simp
  with l1 wrec have "w \<longlonglongrightarrow> 0"
    by (rule lin_rec_null)
  then have "(\<lambda>n. Im (w n)) \<longlonglongrightarrow> Im 0"
    by (rule tendsto_Im)
  then have "(\<lambda>n. s * e n) \<longlonglongrightarrow> 0"
    by (simp add: w_def)
  then have "(\<lambda>n. (s * e n) / s) \<longlonglongrightarrow> 0 / s"
    by (rule tendsto_divide_zero [THEN tendsto_eq_rhs]) simp
  then have "e \<longlonglongrightarrow> 0"
    using s0 by simp
  then have "(\<lambda>n. x n - X) \<longlonglongrightarrow> 0"
    by (simp add: e_def [abs_def])
  then show ?thesis
    by (simp add: LIM_zero_iff X_def)
qed

text \<open>The state after one more sample, and the value returned for it.\<close>

lemma run_snoc:
  "run s (us @ [u]) =
     (fst (run s us) @ [fst (process (snd (run s us)) u)], snd (process (snd (run s us)) u))"
  by (induction us arbitrary: s) (simp_all add: split_beta)

lemma run_replicate_Suc:
  "run s (replicate (Suc n) u) =
     (fst (run s (replicate n u)) @ [fst (process (snd (run s (replicate n u))) u)],
      snd (process (snd (run s (replicate n u))) u))"
  using run_snoc [of s "replicate n u" u] by (simp only: replicate_append_same replicate_Suc)

lemma unit_output_limit: "unit_output \<longlonglongrightarrow> dc_gain sections"
proof -
  define st where "st n = snd (run init (replicate n 1))" for n
  have st_Suc: "st (Suc n) = snd (process (st n) 1)" for n
    unfolding st_def run_replicate_Suc by simp
  have out: "unit_output n = fst (process (st n) 1)" for n
    unfolding unit_output_def st_def run_replicate_Suc by simp
  define x0 where "x0 n = z1_0 (st n)" for n
  define x1 where "x1 n = z1_1 (st n)" for n
  define o0 where "o0 n = b0 section_0 * x0 (Suc (Suc n)) + b1 section_0 * x0 (Suc n) + b2 section_0 * x0 n" for n
  have z20: "z2_0 (st (Suc n)) = x0 n" for n
    by (simp add: st_Suc x0_def process_unfolded Let_def)
  have z21: "z2_1 (st (Suc n)) = x1 n" for n
    by (simp add: st_Suc x1_def process_unfolded Let_def)
  have rec0: "x0 (Suc (Suc n)) = 1 - a1 section_0 * x0 (Suc n) - a2 section_0 * x0 n" for n
    unfolding x0_def st_Suc [of "Suc n"] using z20 [of n]
    by (simp add: process_unfolded Let_def section_0_def x0_def)
  have rec1: "x1 (Suc (Suc n)) = o0 n - a1 section_1 * x1 (Suc n) - a2 section_1 * x1 n" for n
    unfolding x1_def o0_def x0_def st_Suc [of "Suc n"] using z20 [of n] z21 [of n]
    by (simp add: process_unfolded Let_def section_0_def section_1_def x0_def x1_def)
  have outn: "unit_output (Suc n) = b0 section_1 * x1 (Suc (Suc n)) + b1 section_1 * x1 (Suc n) + b2 section_1 * x1 n" for n
    unfolding out x1_def st_Suc [of "Suc n"] using z21 [of n]
    by (simp add: process_unfolded Let_def section_1_def x1_def)
  have d0: "(a1 section_0)\<^sup>2 < 4 * a2 section_0" "a2 section_0 < 1"
    by (simp_all add: section_0_def power2_eq_square)
  have d1: "(a1 section_1)\<^sup>2 < 4 * a2 section_1" "a2 section_1 < 1"
    by (simp_all add: section_1_def power2_eq_square)
  define X0 where "X0 = 1 / (1 + a1 section_0 + a2 section_0)"
  have "(\<lambda>n. 1 :: real) \<longlonglongrightarrow> 1" by simp
  with d0 rec0 have x0_lim: "x0 \<longlonglongrightarrow> X0"
    unfolding X0_def by (rule biquad_converges)
  then have x0_lim1: "(\<lambda>n. x0 (Suc n)) \<longlonglongrightarrow> X0"
    by (rule LIMSEQ_Suc)
  then have x0_lim2: "(\<lambda>n. x0 (Suc (Suc n))) \<longlonglongrightarrow> X0"
    by (rule LIMSEQ_Suc)
  define O0 where "O0 = b0 section_0 * X0 + b1 section_0 * X0 + b2 section_0 * X0"
  have o0_lim: "o0 \<longlonglongrightarrow> O0"
    unfolding o0_def [abs_def] O0_def
    by (intro tendsto_add tendsto_mult tendsto_const x0_lim x0_lim1 x0_lim2)
  define X1 where "X1 = O0 / (1 + a1 section_1 + a2 section_1)"
  from d1 rec1 o0_lim have x1_lim: "x1 \<longlonglongrightarrow> X1"
    unfolding X1_def by (rule biquad_converges)
  then have x1_lim1: "(\<lambda>n. x1 (Suc n)) \<longlonglongrightarrow> X1"
    by (rule LIMSEQ_Suc)
  then have x1_lim2: "(\<lambda>n. x1 (Suc (Suc n))) \<longlonglongrightarrow> X1"
    by (rule LIMSEQ_Suc)
  have "(\<lambda>n. unit_output (Suc n)) \<longlonglongrightarrow> b0 section_1 * X1 + b1 section_1 * X1 + b2 section_1 * X1"
    unfolding outn
    by (intro tendsto_add tendsto_mult tendsto_const x1_lim x1_lim1 x1_lim2)
  then have "unit_output \<longlonglongrightarrow> b0 section_1 * X1 + b1 section_1 * X1 + b2 section_1 * X1"
    by (rule LIMSEQ_imp_Suc)
  moreover have "b0 section_1 * X1 + b1 section_1 * X1 + b2 section_1 * X1 = dc_gain sections"
    by (simp add: dc_gain_def sections_def X1_def O0_def X0_def section_0_def section_1_def)
  ultimately show ?thesis by simp
qed

text \<open>From some call on, every output is within \<open>1e-3\<close> of \<open>1.0\<close>.\<close>

lemma unit_output_eventually_unity:
  "eventually (\<lambda>n. \<bar>unit_output n - 1\<bar> < 1 / 1000) sequentially"
proof -
  have g: "\<bar>dc_gain sections - 1\<bar> < 1 / 2000"
    by (simp add: dc_gain_def sections_def section_0_def section_1_def)
  have "eventually (\<lambda>n. dist (unit_output n) (dc_gain sections) < 1 / 2000) sequentially"
    using unit_output_limit by (rule tendstoD) simp
  then show ?thesis
  proof (rule eventually_mono)
    fix n
    assume "dist (unit_output n) (dc_gain sections) < 1 / 2000"
    then have "\<bar>unit_output n - dc_gain sections\<bar> < 1 / 2000"
      by (simp only: dist_real_def)
    with g show "\<bar>unit_output n - 1\<bar> < 1 / 1000"
      by linarith
  qed
qed

text \<open>
  Claim C7. The steady-state gain of the artifact at frequency zero is 1 within
  \<open>1e-3\<close>: fed the constant input \<open>1\<close>, the outputs of a fresh instance converge,
  their limit is the product over the sections of \<open>(b0 + b1 + b2) / (1 + a1 + a2)\<close>,
  that product differs from \<open>1.0\<close> by at most \<open>1e-3\<close>, and from some call on every
  output is within \<open>1e-3\<close> of \<open>1.0\<close> (in exact arithmetic over the literals of the
  code).
\<close>

theorem dc_gain_unity:
  "unit_output \<longlonglongrightarrow> dc_gain sections \<and>
   \<bar>dc_gain sections - 1\<bar> \<le> 1 / 1000 \<and>
   eventually (\<lambda>n. \<bar>unit_output n - 1\<bar> < 1 / 1000) sequentially"
proof (intro conjI)
  show "unit_output \<longlonglongrightarrow> dc_gain sections"
    by (rule unit_output_limit)
  show "\<bar>dc_gain sections - 1\<bar> \<le> 1 / 1000"
    by (simp add: dc_gain_def sections_def section_0_def section_1_def)
  show "eventually (\<lambda>n. \<bar>unit_output n - 1\<bar> < 1 / 1000) sequentially"
    by (rule unit_output_eventually_unity)
qed

section \<open>Properties of the language selection\<close>




end
